theory Spec2Isabelle
  imports Main "HOL-Library.Stream"
begin

section \<open>The hand-controlled snake game (Program/Snake.py)\<close>

text \<open>
  The game logic of \<^verbatim>\<open>Program/Snake.py\<close>: the class \<^verbatim>\<open>SnakeGame\<close> (its methods
  \<^verbatim>\<open>__init__\<close>, \<^verbatim>\<open>reset\<close>, \<^verbatim>\<open>new_food\<close>, \<^verbatim>\<open>update\<close>) and the direction-update step of
  \<^verbatim>\<open>main\<close>. Python integers are unbounded, so coordinates and the score are \<open>int\<close>;
  a grid cell and a direction are pairs of integers, as the tuples of the source.
\<close>

subsection \<open>Module constants\<close>

definition GRID_SIZE :: int where
  "GRID_SIZE = 20"

text \<open>
  \<^verbatim>\<open>WIDTH\<close> and \<^verbatim>\<open>HEIGHT\<close> are read from the camera when the module is loaded, so they
  are parameters here; the source asks the camera for 640 by 480.
  \<^verbatim>\<open>GRID_WIDTH = WIDTH // GRID_SIZE\<close>, \<^verbatim>\<open>GRID_HEIGHT = HEIGHT // GRID_SIZE\<close>
  (Python's floor division is \<open>div\<close> on \<open>int\<close>). The methods below take the two grid
  dimensions as their first arguments \<open>gw\<close> and \<open>gh\<close>.
\<close>

definition GRID_WIDTH :: "int \<Rightarrow> int" where
  "GRID_WIDTH WIDTH = WIDTH div GRID_SIZE"

definition GRID_HEIGHT :: "int \<Rightarrow> int" where
  "GRID_HEIGHT HEIGHT = HEIGHT div GRID_SIZE"

subsection \<open>Data\<close>

type_synonym cell = "int \<times> int"

datatype py_error = IndexError | ValueError

text \<open>The attributes of a \<^verbatim>\<open>SnakeGame\<close> object; \<open>snake\<close> is head first.\<close>

record SnakeGame =
  snake :: "cell list"
  direction :: "int \<times> int"
  food :: cell
  score :: int
  game_over :: bool
  prev_hand_pos :: "(int \<times> int) option"

subsection \<open>The random source\<close>

text \<open>
  The state of Python's \<^verbatim>\<open>random\<close> module is a stream of raw natural numbers; every
  call of \<^verbatim>\<open>random.randint\<close> consumes its head. \<^verbatim>\<open>randint(a, b)\<close> maps the raw number
  into \<open>a..b\<close> (every value of the range is the image of some raw number) and raises
  \<^verbatim>\<open>ValueError\<close> on an empty range.
\<close>

definition randint :: "int \<Rightarrow> int \<Rightarrow> nat \<Rightarrow> py_error + int" where
  "randint a b r = (if b < a then Inl ValueError else Inr (a + int r mod (b - a + 1)))"

subsection \<open>SnakeGame.new\_food\<close>

text \<open>
  \<^verbatim>\<open>while True: food = (randint(0, GRID_WIDTH-1), randint(0, GRID_HEIGHT-1));
  if food not in self.snake: return food\<close>.
  The loop may run forever, so the result is an \<open>option\<close>: \<open>None\<close> is "never returns",
  \<open>Some (Inl e)\<close> is a raised exception, \<open>Some (Inr (food, rs'))\<close> is the returned cell
  with the rest of the random source.
\<close>

partial_function (option) new_food ::
  "int \<Rightarrow> int \<Rightarrow> cell list \<Rightarrow> nat stream \<Rightarrow> (py_error + cell \<times> nat stream) option" where
  "new_food gw gh snk rs =
     (case randint 0 (gw - 1) (shd rs) of
        Inl e \<Rightarrow> Some (Inl e)
      | Inr x \<Rightarrow>
          (case randint 0 (gh - 1) (shd (stl rs)) of
             Inl e \<Rightarrow> Some (Inl e)
           | Inr y \<Rightarrow>
               if (x, y) \<notin> set snk then Some (Inr ((x, y), stl (stl rs)))
               else new_food gw gh snk (stl (stl rs))))"

subsection \<open>SnakeGame.reset and SnakeGame.\_\_init\_\_\<close>

text \<open>
  \<^verbatim>\<open>reset\<close> assigns \<open>snake\<close>, \<open>direction\<close>, \<open>food\<close>, \<open>score\<close> and \<open>game_over\<close>, in this
  order; \<open>new_food\<close> already sees the new one-cell snake. It does not assign
  \<open>prev_hand_pos\<close>.
\<close>

definition reset ::
  "int \<Rightarrow> int \<Rightarrow> SnakeGame \<Rightarrow> nat stream \<Rightarrow> (py_error + SnakeGame \<times> nat stream) option" where
  "reset gw gh g rs =
     (let g1 = g\<lparr>snake := [(gw div 2, gh div 2)]\<rparr>;
          g2 = g1\<lparr>direction := (0, 0)\<rparr>
      in case new_food gw gh (snake g2) rs of
           None \<Rightarrow> None
         | Some (Inl e) \<Rightarrow> Some (Inl e)
         | Some (Inr (f, rs')) \<Rightarrow>
             Some (Inr (g2\<lparr>food := f, score := 0, game_over := False\<rparr>, rs')))"

text \<open>
  \<^verbatim>\<open>__init__\<close> calls \<open>reset\<close> on the fresh object and then sets
  \<^verbatim>\<open>self.prev_hand_pos = None\<close>. The fresh object has no attributes yet; \<open>reset\<close> assigns
  all of them but \<open>prev_hand_pos\<close>, which \<^verbatim>\<open>__init__\<close> assigns, so the values of
  \<open>blank\<close> are never read.
\<close>

definition blank :: SnakeGame where
  "blank = \<lparr>snake = [], direction = (0, 0), food = (0, 0), score = 0,
            game_over = False, prev_hand_pos = None\<rparr>"

definition SnakeGame_init ::
  "int \<Rightarrow> int \<Rightarrow> nat stream \<Rightarrow> (py_error + SnakeGame \<times> nat stream) option" where
  "SnakeGame_init gw gh rs =
     (case reset gw gh blank rs of
        None \<Rightarrow> None
      | Some (Inl e) \<Rightarrow> Some (Inl e)
      | Some (Inr (g, rs')) \<Rightarrow> Some (Inr (g\<lparr>prev_hand_pos := None\<rparr>, rs')))"

subsection \<open>SnakeGame.update\<close>

text \<open>
  \<^verbatim>\<open>self.snake[0]\<close> raises \<^verbatim>\<open>IndexError\<close> on an empty list; \<^verbatim>\<open>insert(0, new_head)\<close>
  prepends; \<^verbatim>\<open>pop()\<close> removes the last element. On food the score is incremented before
  \<open>new_food\<close> runs on the grown snake.
\<close>

definition update ::
  "int \<Rightarrow> int \<Rightarrow> SnakeGame \<Rightarrow> int \<times> int \<Rightarrow> nat stream
     \<Rightarrow> (py_error + SnakeGame \<times> nat stream) option" where
  "update gw gh g d rs =
     (if game_over g then Some (Inr (g, rs))
      else case snake g of
        [] \<Rightarrow> Some (Inl IndexError)
      | head # _ \<Rightarrow>
          let new_head = (fst head + fst d, snd head + snd d) in
          if new_head \<in> set (snake g) \<or>
             fst new_head < 0 \<or> fst new_head \<ge> gw \<or>
             snd new_head < 0 \<or> snd new_head \<ge> gh
          then Some (Inr (g\<lparr>game_over := True\<rparr>, rs))
          else
            let g1 = g\<lparr>snake := new_head # snake g\<rparr> in
            if new_head = food g1 then
              let g2 = g1\<lparr>score := score g1 + 1\<rparr> in
              (case new_food gw gh (snake g2) rs of
                 None \<Rightarrow> None
               | Some (Inl e) \<Rightarrow> Some (Inl e)
               | Some (Inr (f, rs')) \<Rightarrow> Some (Inr (g2\<lparr>food := f\<rparr>, rs')))
            else Some (Inr (g1\<lparr>snake := butlast (snake g1)\<rparr>, rs)))"

subsection \<open>The direction-update step of main\<close>

text \<open>
  Lines 151 to 155 of \<^verbatim>\<open>main\<close>: from the displacement \<open>(dx, dy)\<close> of the hand, the
  candidate \<^verbatim>\<open>new_dir\<close>, or nothing when neither \<^verbatim>\<open>abs(dx) > 20\<close> nor \<^verbatim>\<open>abs(dy) > 20\<close>.
\<close>

definition candidate :: "int \<Rightarrow> int \<Rightarrow> (int \<times> int) option" where
  "candidate dx dy =
     (if \<bar>dx\<bar> > 20 \<or> \<bar>dy\<bar> > 20 then
        (if \<bar>dx\<bar> > \<bar>dy\<bar> then Some (if dx > 0 then 1 else - 1, 0)
         else Some (0, if dy > 0 then 1 else - 1))
      else None)"

text \<open>
  Lines 146 to 161 of \<^verbatim>\<open>main\<close>, on the hand position of this frame (\<open>None\<close> when no hand
  was detected; a tuple is always truthy). The candidate is assigned unless both its
  components are the negations of the current direction's.
\<close>

definition steer :: "SnakeGame \<Rightarrow> (int \<times> int) option \<Rightarrow> SnakeGame" where
  "steer g hand_pos =
     (case hand_pos of
        None \<Rightarrow> g
      | Some hp \<Rightarrow>
          let g1 =
            (case prev_hand_pos g of
               None \<Rightarrow> g
             | Some pp \<Rightarrow>
                 (case candidate (fst hp - fst pp) (snd hp - snd pp) of
                    None \<Rightarrow> g
                  | Some new_dir \<Rightarrow>
                      if fst new_dir \<noteq> - fst (direction g) \<or>
                         snd new_dir \<noteq> - snd (direction g)
                      then g\<lparr>direction := new_dir\<rparr> else g))
          in g1\<lparr>prev_hand_pos := Some hp\<rparr>)"

subsection \<open>Reachable game states\<close>

text \<open>
  The states a \<^verbatim>\<open>SnakeGame\<close> object can be in: built by \<^verbatim>\<open>__init__\<close>, then changed by
  \<open>reset\<close>, by \<open>update\<close> (with any direction argument) and by the direction-update step
  of \<open>main\<close>, each with any random source, whenever the call returns.
\<close>

inductive reachable :: "int \<Rightarrow> int \<Rightarrow> SnakeGame \<Rightarrow> bool" for gw gh where
  r_init: "SnakeGame_init gw gh rs = Some (Inr (g, rs')) \<Longrightarrow> reachable gw gh g"
| r_reset: "reachable gw gh g \<Longrightarrow> reset gw gh g rs = Some (Inr (g', rs'))
            \<Longrightarrow> reachable gw gh g'"
| r_update: "reachable gw gh g \<Longrightarrow> update gw gh g d rs = Some (Inr (g', rs'))
            \<Longrightarrow> reachable gw gh g'"
| r_steer: "reachable gw gh g \<Longrightarrow> reachable gw gh (steer g hp)"

subsection \<open>Vocabulary of the properties\<close>

text \<open>A cell of the grid: \<open>0 \<le> x < GRID_WIDTH\<close> and \<open>0 \<le> y < GRID_HEIGHT\<close>.\<close>

definition in_grid :: "int \<Rightarrow> int \<Rightarrow> cell \<Rightarrow> bool" where
  "in_grid gw gh c = (0 \<le> fst c \<and> fst c < gw \<and> 0 \<le> snd c \<and> snd c < gh)"

text \<open>
  The cell that iteration \<open>n\<close> (counted from 0) of the loop of \<open>new_food\<close> draws from
  the random source \<open>rs\<close>, on a grid with positive dimensions: each iteration consumes
  two raw numbers.
\<close>

definition draw_at :: "int \<Rightarrow> int \<Rightarrow> nat stream \<Rightarrow> nat \<Rightarrow> cell" where
  "draw_at gw gh rs n = (int (rs !! (2 * n)) mod gw, int (rs !! (2 * n + 1)) mod gh)"

section \<open>Properties of the random source and of new\_food\<close>

lemma randint_range: "randint a b r = Inr v \<Longrightarrow> a \<le> v \<and> v \<le> b"
proof -
  assume h: "randint a b r = Inr v"
  then have ab: "a \<le> b" and v: "v = a + int r mod (b - a + 1)"
    by (auto simp: randint_def split: if_splits)
  from ab have pos: "0 < b - a + 1" by simp
  show ?thesis
    using pos_mod_sign[OF pos, of "int r"] pos_mod_bound[OF pos, of "int r"] v by linarith
qed

lemma randint_grid: "0 < n \<Longrightarrow> randint 0 (n - 1) r = Inr (int r mod n)"
  by (simp add: randint_def)

lemma draw_at_in_grid: "0 < gw \<Longrightarrow> 0 < gh \<Longrightarrow> in_grid gw gh (draw_at gw gh rs n)"
  by (simp add: in_grid_def draw_at_def)

lemma draw_at_Suc: "draw_at gw gh rs (Suc n) = draw_at gw gh (stl (stl rs)) n"
  by (simp add: draw_at_def)

text \<open>Whatever \<open>new_food\<close> returns is a grid cell off the snake.\<close>

lemma new_food_sound_aux:
  assumes "new_food gw gh snk rs = Some y"
  shows "\<forall>c rs'. y = Inr (c, rs') \<longrightarrow> c \<notin> set snk \<and> in_grid gw gh c"
proof (rule new_food.raw_induct
    [where P = "\<lambda>gw gh snk rs y.
                  \<forall>c rs'. y = Inr (c, rs') \<longrightarrow> c \<notin> set snk \<and> in_grid gw gh c",
      OF _ assms])
  fix nf gw gh snk rs y
  assume "\<And>gw gh snk rs y. nf gw gh snk rs = Some y
      \<Longrightarrow> \<forall>c rs'. y = Inr (c, rs') \<longrightarrow> c \<notin> set snk \<and> in_grid gw gh c"
    and "(case randint 0 (gw - 1) (shd rs) of
        Inl e \<Rightarrow> Some (Inl e)
      | Inr x \<Rightarrow>
          (case randint 0 (gh - 1) (shd (stl rs)) of
             Inl e \<Rightarrow> Some (Inl e)
           | Inr y \<Rightarrow>
               if (x, y) \<notin> set snk then Some (Inr ((x, y), stl (stl rs)))
               else nf gw gh snk (stl (stl rs)))) = Some y"
  then show "\<forall>c rs'. y = Inr (c, rs') \<longrightarrow> c \<notin> set snk \<and> in_grid gw gh c"
    by (auto simp: in_grid_def split: sum.splits if_splits dest!: randint_range)
qed

lemma new_food_sound:
  "new_food gw gh snk rs = Some (Inr (c, rs')) \<Longrightarrow> c \<notin> set snk \<and> in_grid gw gh c"
  using new_food_sound_aux by blast

text \<open>On an empty grid \<open>randint\<close> raises.\<close>

lemma new_food_ValueError:
  "gw \<le> 0 \<or> gh \<le> 0 \<Longrightarrow> new_food gw gh snk rs = Some (Inl ValueError)"
  by (subst new_food.simps) (auto simp: randint_def split: sum.splits)

text \<open>One iteration of the loop: return on a free cell, go round again on a taken one.\<close>

lemma new_food_step_free:
  "0 < gw \<Longrightarrow> 0 < gh \<Longrightarrow> draw_at gw gh rs 0 \<notin> set snk \<Longrightarrow>
   new_food gw gh snk rs = Some (Inr (draw_at gw gh rs 0, stl (stl rs)))"
  by (subst new_food.simps) (auto simp: randint_def draw_at_def split: sum.splits)

lemma new_food_step_taken:
  "0 < gw \<Longrightarrow> 0 < gh \<Longrightarrow> draw_at gw gh rs 0 \<in> set snk \<Longrightarrow>
   new_food gw gh snk rs = new_food gw gh snk (stl (stl rs))"
  by (subst new_food.simps) (auto simp: randint_def draw_at_def split: sum.splits)

text \<open>
  The loop returns at the first iteration that draws a free cell, with that cell, having
  consumed two raw numbers per iteration.
\<close>

lemma new_food_returns:
  "0 < gw \<Longrightarrow> 0 < gh \<Longrightarrow> \<forall>m<n. draw_at gw gh rs m \<in> set snk \<Longrightarrow>
   draw_at gw gh rs n \<notin> set snk \<Longrightarrow>
   new_food gw gh snk rs = Some (Inr (draw_at gw gh rs n, sdrop (2 * n + 2) rs))"
proof (induction n arbitrary: rs)
  case 0
  then show ?case by (simp add: new_food_step_free)
next
  case (Suc n)
  have "draw_at gw gh rs 0 \<in> set snk" using Suc.prems(3) by blast
  then have "new_food gw gh snk rs = new_food gw gh snk (stl (stl rs))"
    using Suc.prems(1,2) by (rule new_food_step_taken[rotated 2])
  moreover have "\<forall>m<n. draw_at gw gh (stl (stl rs)) m \<in> set snk"
    using Suc.prems(3) draw_at_Suc[of gw gh rs] by (metis Suc_less_eq)
  moreover have "draw_at gw gh (stl (stl rs)) n \<notin> set snk"
    using Suc.prems(4) by (simp add: draw_at_Suc)
  ultimately show ?case
    using Suc.IH[of "stl (stl rs)"] Suc.prems(1,2) by (simp add: draw_at_Suc)
qed

lemma new_food_returns_ex:
  assumes "0 < gw" "0 < gh" "draw_at gw gh rs n \<notin> set snk"
  shows "\<exists>c rs'. new_food gw gh snk rs = Some (Inr (c, rs'))"
proof -
  define k where "k = (LEAST k. draw_at gw gh rs k \<notin> set snk)"
  have "draw_at gw gh rs k \<notin> set snk"
    unfolding k_def using assms(3) by (rule LeastI)
  moreover have "\<forall>m<k. draw_at gw gh rs m \<in> set snk"
    unfolding k_def using not_less_Least by blast
  ultimately show ?thesis
    using new_food_returns[OF assms(1,2)] by blast
qed

text \<open>A random source that never draws a free cell keeps the loop running forever.\<close>

lemma new_food_never:
  assumes gw: "0 < gw" and gh: "0 < gh" and taken: "\<forall>n. draw_at gw gh rs n \<in> set snk"
  shows "new_food gw gh snk rs = None"
proof (cases "new_food gw gh snk rs")
  case None
  then show ?thesis .
next
  case (Some y)
  have False
  proof (rule new_food.raw_induct
    [where P = "\<lambda>gw' gh' snk' rs y.
                  gw' = gw \<and> gh' = gh \<and> snk' = snk \<and>
                  (\<forall>n. draw_at gw gh rs n \<in> set snk) \<longrightarrow> False",
      OF _ Some, THEN mp])
    fix nf gw' gh' snk' rs y
    assume IH: "\<And>gw' gh' snk' rs y. nf gw' gh' snk' rs = Some y
      \<Longrightarrow> gw' = gw \<and> gh' = gh \<and> snk' = snk \<and>
          (\<forall>n. draw_at gw gh rs n \<in> set snk) \<longrightarrow> False"
    and body: "(case randint 0 (gw' - 1) (shd rs) of
        Inl e \<Rightarrow> Some (Inl e)
      | Inr x \<Rightarrow>
          (case randint 0 (gh' - 1) (shd (stl rs)) of
             Inl e \<Rightarrow> Some (Inl e)
           | Inr y \<Rightarrow>
               if (x, y) \<notin> set snk' then Some (Inr ((x, y), stl (stl rs)))
               else nf gw' gh' snk' (stl (stl rs)))) = Some y"
    show "gw' = gw \<and> gh' = gh \<and> snk' = snk \<and>
          (\<forall>n. draw_at gw gh rs n \<in> set snk) \<longrightarrow> False"
    proof
      assume eq: "gw' = gw \<and> gh' = gh \<and> snk' = snk \<and>
          (\<forall>n. draw_at gw gh rs n \<in> set snk)"
      then have "draw_at gw gh rs 0 \<in> set snk" by blast
      then have "nf gw gh snk (stl (stl rs)) = Some y"
        using body eq gw gh by (simp add: randint_grid draw_at_def)
      moreover have "\<forall>n. draw_at gw gh (stl (stl rs)) n \<in> set snk"
        using eq draw_at_Suc[of gw gh rs] by metis
      ultimately show False using IH by blast
    qed
  qed (simp add: taken)
  then show ?thesis ..
qed

section \<open>Properties of reset and update\<close>

lemma sconst_draw [simp]: "draw_at gw gh (sconst k) n = (int k mod gw, int k mod gh)"
  by (simp add: draw_at_def)

lemma reset_returns:
  "reset gw gh g rs = Some (Inr (g', rs')) \<Longrightarrow>
   \<exists>f. new_food gw gh [(gw div 2, gh div 2)] rs = Some (Inr (f, rs')) \<and>
       g' = g\<lparr>snake := [(gw div 2, gh div 2)], direction := (0, 0), food := f,
              score := 0, game_over := False\<rparr>"
  by (auto simp: reset_def split: option.splits sum.splits)

lemma reset_eval:
  "new_food gw gh [(gw div 2, gh div 2)] rs = Some (Inr (f, rs')) \<Longrightarrow>
   reset gw gh g rs = Some (Inr (g\<lparr>snake := [(gw div 2, gh div 2)], direction := (0, 0),
              food := f, score := 0, game_over := False\<rparr>, rs'))"
  by (simp add: reset_def)

lemma update_food_branch:
  "update gw gh g d rs = Some (Inr (g', rs')) \<Longrightarrow> score g' \<noteq> score g \<Longrightarrow>
   \<exists>h t f. snake g = h # t \<and> \<not> game_over g \<and>
     new_food gw gh ((fst h + fst d, snd h + snd d) # snake g) rs = Some (Inr (f, rs')) \<and>
     g' = g\<lparr>snake := (fst h + fst d, snd h + snd d) # snake g, score := score g + 1, food := f\<rparr>"
  by (auto simp: update_def Let_def split: if_splits list.splits option.splits sum.splits)

lemma init_returns:
  "SnakeGame_init gw gh rs = Some (Inr (g, rs')) \<Longrightarrow>
   \<exists>f. new_food gw gh [(gw div 2, gh div 2)] rs = Some (Inr (f, rs')) \<and>
       g = \<lparr>snake = [(gw div 2, gh div 2)], direction = (0, 0), food = f,
              score = 0, game_over = False, prev_hand_pos = None\<rparr>"
  by (auto simp: SnakeGame_init_def blank_def split: option.splits sum.splits dest!: reset_returns)

lemma update_game_over: "game_over g \<Longrightarrow> update gw gh g d rs = Some (Inr (g, rs))"
  by (simp add: update_def)

lemma update_collision:
  "\<not> game_over g \<Longrightarrow> snake g = h # t \<Longrightarrow> nh = (fst h + fst d, snd h + snd d) \<Longrightarrow>
   nh \<in> set (snake g) \<or> \<not> in_grid gw gh nh \<Longrightarrow>
   update gw gh g d rs = Some (Inr (g\<lparr>game_over := True\<rparr>, rs))"
  by (auto simp: update_def in_grid_def Let_def)

lemma update_move:
  "\<not> game_over g \<Longrightarrow> snake g = h # t \<Longrightarrow> nh = (fst h + fst d, snd h + snd d) \<Longrightarrow>
   nh \<notin> set (snake g) \<Longrightarrow> in_grid gw gh nh \<Longrightarrow> nh \<noteq> food g \<Longrightarrow>
   update gw gh g d rs = Some (Inr (g\<lparr>snake := butlast (nh # snake g)\<rparr>, rs))"
  by (auto simp: update_def in_grid_def Let_def)

lemma update_eat:
  "\<not> game_over g \<Longrightarrow> snake g = h # t \<Longrightarrow> nh = (fst h + fst d, snd h + snd d) \<Longrightarrow>
   nh \<notin> set (snake g) \<Longrightarrow> in_grid gw gh nh \<Longrightarrow> nh = food g \<Longrightarrow>
   update gw gh g d rs =
     (case new_food gw gh (nh # snake g) rs of
        None \<Rightarrow> None
      | Some (Inl e) \<Rightarrow> Some (Inl e)
      | Some (Inr (f, rs')) \<Rightarrow>
          Some (Inr (g\<lparr>snake := nh # snake g, score := score g + 1, food := f\<rparr>, rs')))"
  by (auto simp: update_def in_grid_def Let_def split: option.splits sum.splits)

lemma update_no_raise: "snake g \<noteq> [] \<Longrightarrow> update gw gh g d rs \<noteq> Some (Inl e)"
proof -
  assume ne: "snake g \<noteq> []"
  have nf: "0 < gw \<Longrightarrow> 0 < gh \<Longrightarrow> new_food gw gh snk rs \<noteq> Some (Inl e)" for snk
  proof (cases "\<exists>n. draw_at gw gh rs n \<notin> set snk")
    case True
    assume "0 < gw" "0 < gh"
    then show ?thesis using True new_food_returns_ex[of gw gh rs _ snk] by fastforce
  next
    case False
    assume "0 < gw" "0 < gh"
    then show ?thesis using False new_food_never[of gw gh rs snk] by simp
  qed
  show ?thesis
    using ne nf
    by (auto simp: update_def Let_def split: list.splits option.splits sum.splits)
qed

lemma update_direction: "update gw gh g d rs = Some (Inr (g', rs')) \<Longrightarrow> direction g' = direction g"
  by (auto simp: update_def Let_def split: if_splits list.splits option.splits sum.splits)

lemma update_distinct:
  "update gw gh g d rs = Some (Inr (g', rs')) \<Longrightarrow> distinct (snake g) \<Longrightarrow> distinct (snake g')"
  by (auto simp: update_def Let_def distinct_butlast
      split: if_splits list.splits option.splits sum.splits dest: in_set_butlastD)

lemma steer_direction:
  "direction (steer g hp) = direction g \<or>
   direction (steer g hp) \<in> {(1, 0), (- 1, 0), (0, 1), (0, - 1)}"
  by (auto simp: steer_def candidate_def Let_def split: option.splits if_splits)

lemma steer_snake: "snake (steer g hp) = snake g"
  by (auto simp: steer_def Let_def split: option.splits)

lemma steer_food: "food (steer g hp) = food g"
  by (auto simp: steer_def Let_def split: option.splits)

lemma steer_score: "score (steer g hp) = score g"
  by (auto simp: steer_def Let_def split: option.splits)

lemma steer_game_over: "game_over (steer g hp) = game_over g"
  by (auto simp: steer_def Let_def split: option.splits)

text \<open>
  \<open>reset\<close> returns on every random source that draws a cell other than the centre.
\<close>

lemma reset_returns_ex:
  assumes "0 < gw" "0 < gh" "draw_at gw gh rs n \<noteq> (gw div 2, gh div 2)"
  shows "\<exists>g' rs'. reset gw gh g rs = Some (Inr (g', rs'))"
proof -
  have "draw_at gw gh rs n \<notin> set [(gw div 2, gh div 2)]" using assms(3) by simp
  then obtain c rs' where "new_food gw gh [(gw div 2, gh div 2)] rs = Some (Inr (c, rs'))"
    using new_food_returns_ex[OF assms(1,2)] by blast
  then show ?thesis using reset_eval by blast
qed

text \<open>
  When the food is eaten and no iteration of the food loop draws a cell off the grown
  snake, \<open>update\<close> never returns.
\<close>

lemma update_eat_never:
  assumes "\<not> game_over g" and "snake g = h # t" and "nh = (fst h + fst d, snd h + snd d)"
    and "nh \<notin> set (snake g)" and "in_grid gw gh nh" and "nh = food g"
    and "\<forall>n. draw_at gw gh rs n \<in> set (nh # snake g)"
  shows "update gw gh g d rs = None"
proof -
  from assms(5) have pos: "0 < gw" "0 < gh" by (auto simp: in_grid_def)
  have nf: "new_food gw gh (nh # snake g) rs = None"
    using new_food_never[OF pos assms(7)] .
  have "update gw gh g d rs =
     (case new_food gw gh (nh # snake g) rs of
        None \<Rightarrow> None
      | Some (Inl e) \<Rightarrow> Some (Inl e)
      | Some (Inr (f, rs')) \<Rightarrow>
          Some (Inr (g\<lparr>snake := nh # snake g, score := score g + 1, food := f\<rparr>, rs')))"
    using update_eat[OF assms(1-6)] .
  then show ?thesis unfolding nf by simp
qed

text \<open>A game object always has a head cell.\<close>

lemma reachable_snake_nonempty: "reachable gw gh g \<Longrightarrow> snake g \<noteq> []"
proof (induction rule: reachable.induct)
  case (r_init rs g rs')
  then show ?case using init_returns by fastforce
next
  case (r_reset g rs g' rs')
  then show ?case using reset_returns by fastforce
next
  case (r_update g d rs g' rs')
  then show ?case
    by (auto simp: update_def Let_def split: if_splits list.splits option.splits sum.splits)
next
  case (r_steer g hp)
  then show ?case by (simp add: steer_snake)
qed

section \<open>Evaluations on concrete inputs\<close>

text \<open>
  The camera's 640 by 480 frame gives a grid of 32 by 24 cells; the random source
  \<open>sconst 0\<close> draws the cell \<open>(0, 0)\<close> at every iteration.
\<close>

lemma grid_640_480: "GRID_WIDTH 640 = 32 \<and> GRID_HEIGHT 480 = 24"
  by (simp add: GRID_WIDTH_def GRID_HEIGHT_def GRID_SIZE_def)

lemma init_example:
  "SnakeGame_init 32 24 (sconst 0) =
     Some (Inr (\<lparr>snake = [(16, 12)], direction = (0, 0), food = (0, 0), score = 0,
                 game_over = False, prev_hand_pos = None\<rparr>, sconst 0))"
proof -
  have "new_food 32 24 [(16, 12)] (sconst 0) = Some (Inr ((0, 0), sconst 0))"
    using new_food_step_free[of 32 24 "sconst 0" "[(16, 12)]"] by simp
  then show ?thesis
    by (simp add: SnakeGame_init_def reset_def blank_def)
qed


lemma new_food_example: "new_food 32 24 [(16, 12)] (sconst 0) = Some (Inr ((0, 0), sconst 0))"
  using new_food_step_free[of 32 24 "sconst 0" "[(16, 12)]"] by simp

lemma reset_example:
  "reset 32 24 \<lparr>snake = [(3, 4), (3, 5)], direction = (0, - 1), food = (9, 9), score = 7,
                 game_over = True, prev_hand_pos = Some (100, 100)\<rparr> (sconst 0) =
     Some (Inr (\<lparr>snake = [(16, 12)], direction = (0, 0), food = (0, 0), score = 0,
                 game_over = False, prev_hand_pos = Some (100, 100)\<rparr>, sconst 0))"
  using new_food_example by (simp add: reset_def)

lemma update_example_food:
  "update 32 24 \<lparr>snake = [(16, 12)], direction = (1, 0), food = (17, 12), score = 0,
                  game_over = False, prev_hand_pos = None\<rparr> (1, 0) (sconst 0) =
     Some (Inr (\<lparr>snake = [(17, 12), (16, 12)], direction = (1, 0), food = (0, 0), score = 1,
                 game_over = False, prev_hand_pos = None\<rparr>, sconst 0))"
proof -
  have "new_food 32 24 [(17, 12), (16, 12)] (sconst 0) = Some (Inr ((0, 0), sconst 0))"
    using new_food_step_free[of 32 24 "sconst 0" "[(17, 12), (16, 12)]"] by simp
  then show ?thesis by (simp add: update_def)
qed

text \<open>
  A run of the game: the object is built with the food one cell to the right of the
  head, the hand is seen at \<open>(100, 100)\<close> and then at \<open>(150, 100)\<close>, which steers to
  the right, and one tick eats the food.
\<close>

lemma init_example_food_ahead:
  "SnakeGame_init 32 24 (17 ## 12 ## sconst 0) =
     Some (Inr (\<lparr>snake = [(16, 12)], direction = (0, 0), food = (17, 12), score = 0,
                 game_over = False, prev_hand_pos = None\<rparr>, sconst 0))"
proof -
  have "new_food 32 24 [(16, 12)] (17 ## 12 ## sconst 0) = Some (Inr ((17, 12), sconst 0))"
    using new_food_step_free[of 32 24 "17 ## 12 ## sconst 0" "[(16, 12)]"]
    by (simp add: draw_at_def)
  then show ?thesis
    by (simp add: SnakeGame_init_def reset_def blank_def)
qed

lemma steer_example_first:
  "steer \<lparr>snake = [(16, 12)], direction = (0, 0), food = (17, 12), score = 0,
          game_over = False, prev_hand_pos = None\<rparr> (Some (100, 100)) =
     \<lparr>snake = [(16, 12)], direction = (0, 0), food = (17, 12), score = 0,
      game_over = False, prev_hand_pos = Some (100, 100)\<rparr>"
  by (simp add: steer_def)

lemma steer_example_right:
  "steer \<lparr>snake = [(16, 12)], direction = (0, 0), food = (17, 12), score = 0,
          game_over = False, prev_hand_pos = Some (100, 100)\<rparr> (Some (150, 100)) =
     \<lparr>snake = [(16, 12)], direction = (1, 0), food = (17, 12), score = 0,
      game_over = False, prev_hand_pos = Some (150, 100)\<rparr>"
  by (simp add: steer_def candidate_def)

lemma update_example_eat:
  "update 32 24 \<lparr>snake = [(16, 12)], direction = (1, 0), food = (17, 12), score = 0,
                  game_over = False, prev_hand_pos = Some (150, 100)\<rparr> (1, 0) (sconst 0) =
     Some (Inr (\<lparr>snake = [(17, 12), (16, 12)], direction = (1, 0), food = (0, 0), score = 1,
                 game_over = False, prev_hand_pos = Some (150, 100)\<rparr>, sconst 0))"
proof -
  have "new_food 32 24 [(17, 12), (16, 12)] (sconst 0) = Some (Inr ((0, 0), sconst 0))"
    using new_food_step_free[of 32 24 "sconst 0" "[(17, 12), (16, 12)]"] by simp
  then show ?thesis by (simp add: update_def)
qed

lemma reachable_example:
  "reachable 32 24 \<lparr>snake = [(17, 12), (16, 12)], direction = (1, 0), food = (0, 0),
                     score = 1, game_over = False, prev_hand_pos = Some (150, 100)\<rparr>"
proof -
  have "reachable 32 24 \<lparr>snake = [(16, 12)], direction = (0, 0), food = (17, 12), score = 0,
          game_over = False, prev_hand_pos = None\<rparr>"
    using init_example_food_ahead by (rule r_init)
  then have "reachable 32 24 \<lparr>snake = [(16, 12)], direction = (0, 0), food = (17, 12),
          score = 0, game_over = False, prev_hand_pos = Some (100, 100)\<rparr>"
    using r_steer[of 32 24 _ "Some (100, 100)"] steer_example_first by metis
  then have "reachable 32 24 \<lparr>snake = [(16, 12)], direction = (1, 0), food = (17, 12),
          score = 0, game_over = False, prev_hand_pos = Some (150, 100)\<rparr>"
    using r_steer[of 32 24 _ "Some (150, 100)"] steer_example_right by metis
  then show ?thesis
    using update_example_eat by (rule r_update)
qed

text \<open>
  A grid of 2 by 1 cells (a frame of 40 by 20 pixels): the snake starts on \<open>(1, 0)\<close>,
  the food can only be on \<open>(0, 0)\<close>, and the hand steers to the left. Eating the food
  fills the grid.
\<close>

lemma grid_2_1_cells: "in_grid 2 1 c \<Longrightarrow> c \<in> set [(0, 0), (1, 0)]"
proof -
  assume "in_grid 2 1 c"
  then have "fst c = 0 \<or> fst c = 1" "snd c = 0" by (auto simp: in_grid_def)
  then show "c \<in> set [(0, 0), (1, 0)]" by (cases c) auto
qed

lemma init_example_2_1:
  "SnakeGame_init 2 1 (sconst 0) =
     Some (Inr (\<lparr>snake = [(1, 0)], direction = (0, 0), food = (0, 0), score = 0,
                 game_over = False, prev_hand_pos = None\<rparr>, sconst 0))"
proof -
  have "new_food 2 1 [(1, 0)] (sconst 0) = Some (Inr ((0, 0), sconst 0))"
    using new_food_step_free[of 2 1 "sconst 0" "[(1, 0)]"] by simp
  then show ?thesis
    by (simp add: SnakeGame_init_def reset_def blank_def)
qed

lemma steer_example_2_1_first:
  "steer \<lparr>snake = [(1, 0)], direction = (0, 0), food = (0, 0), score = 0,
          game_over = False, prev_hand_pos = None\<rparr> (Some (100, 100)) =
     \<lparr>snake = [(1, 0)], direction = (0, 0), food = (0, 0), score = 0,
      game_over = False, prev_hand_pos = Some (100, 100)\<rparr>"
  by (simp add: steer_def)

lemma steer_example_2_1_left:
  "steer \<lparr>snake = [(1, 0)], direction = (0, 0), food = (0, 0), score = 0,
          game_over = False, prev_hand_pos = Some (100, 100)\<rparr> (Some (50, 100)) =
     \<lparr>snake = [(1, 0)], direction = (- 1, 0), food = (0, 0), score = 0,
      game_over = False, prev_hand_pos = Some (50, 100)\<rparr>"
  by (simp add: steer_def candidate_def)

lemma reachable_example_2_1:
  "reachable 2 1 \<lparr>snake = [(1, 0)], direction = (- 1, 0), food = (0, 0), score = 0,
                   game_over = False, prev_hand_pos = Some (50, 100)\<rparr>"
proof -
  have "reachable 2 1 \<lparr>snake = [(1, 0)], direction = (0, 0), food = (0, 0), score = 0,
          game_over = False, prev_hand_pos = None\<rparr>"
    using init_example_2_1 by (rule r_init)
  then have "reachable 2 1 \<lparr>snake = [(1, 0)], direction = (0, 0), food = (0, 0), score = 0,
          game_over = False, prev_hand_pos = Some (100, 100)\<rparr>"
    using r_steer[of 2 1 _ "Some (100, 100)"] steer_example_2_1_first by metis
  then show ?thesis
    using r_steer[of 2 1 _ "Some (50, 100)"] steer_example_2_1_left by metis
qed

lemma update_example_2_1_never:
  "update 2 1 \<lparr>snake = [(1, 0)], direction = (- 1, 0), food = (0, 0), score = 0,
                game_over = False, prev_hand_pos = Some (50, 100)\<rparr> (- 1, 0) rs = None"
proof -
  let ?g = "\<lparr>snake = [(1, 0)], direction = (- 1, 0), food = (0, 0), score = 0,
             game_over = False, prev_hand_pos = Some (50, 100)\<rparr>"
  have a: "\<not> game_over ?g" "snake ?g = (1, 0) # []" by simp_all
  have nh: "(0, 0) = (fst (1 :: int, 0 :: int) + fst (- 1 :: int, 0 :: int),
                      snd (1 :: int, 0 :: int) + snd (- 1 :: int, 0 :: int))" by simp
  have b: "(0, 0) \<notin> set (snake ?g)" "in_grid 2 1 (0, 0)" "(0, 0) = food ?g"
    by (simp_all add: in_grid_def)
  have "\<forall>n. draw_at 2 1 rs n \<in> set ((0, 0) # snake ?g)"
  proof
    fix n
    have "in_grid 2 1 (draw_at 2 1 rs n)" by (rule draw_at_in_grid) simp_all
    then show "draw_at 2 1 rs n \<in> set ((0, 0) # snake ?g)"
      using grid_2_1_cells by simp
  qed
  then show ?thesis
    using update_eat_never[OF a nh b] by blast
qed

text \<open>
  A game that ends on its first tick, with the hand seen afterwards at \<open>(100, 100)\<close> and
  then at \<open>(100, 150)\<close>.
\<close>

lemma update_example_zero_tick:
  "update 32 24 \<lparr>snake = [(16, 12)], direction = (0, 0), food = (0, 0), score = 0,
                  game_over = False, prev_hand_pos = None\<rparr> (0, 0) (sconst 0) =
     Some (Inr (\<lparr>snake = [(16, 12)], direction = (0, 0), food = (0, 0), score = 0,
                  game_over = True, prev_hand_pos = None\<rparr>, sconst 0))"
  by (simp add: update_def)

lemma steer_example_game_over_first:
  "steer \<lparr>snake = [(16, 12)], direction = (0, 0), food = (0, 0), score = 0,
          game_over = True, prev_hand_pos = None\<rparr> (Some (100, 100)) =
     \<lparr>snake = [(16, 12)], direction = (0, 0), food = (0, 0), score = 0,
      game_over = True, prev_hand_pos = Some (100, 100)\<rparr>"
  by (simp add: steer_def)

lemma steer_example_game_over_down:
  "steer \<lparr>snake = [(16, 12)], direction = (0, 0), food = (0, 0), score = 0,
          game_over = True, prev_hand_pos = Some (100, 100)\<rparr> (Some (100, 150)) =
     \<lparr>snake = [(16, 12)], direction = (0, 1), food = (0, 0), score = 0,
      game_over = True, prev_hand_pos = Some (100, 150)\<rparr>"
  by (simp add: steer_def candidate_def)

lemma reachable_example_game_over:
  "reachable 32 24 \<lparr>snake = [(16, 12)], direction = (0, 0), food = (0, 0), score = 0,
                     game_over = True, prev_hand_pos = Some (100, 100)\<rparr>"
proof -
  have "reachable 32 24 \<lparr>snake = [(16, 12)], direction = (0, 0), food = (0, 0), score = 0,
          game_over = False, prev_hand_pos = None\<rparr>"
    using init_example by (rule r_init)
  then have "reachable 32 24 \<lparr>snake = [(16, 12)], direction = (0, 0), food = (0, 0),
          score = 0, game_over = True, prev_hand_pos = None\<rparr>"
    using update_example_zero_tick by (rule r_update)
  then show ?thesis
    using r_steer[of 32 24 _ "Some (100, 100)"] steer_example_game_over_first by metis
qed

section \<open>The claims\<close>

text \<open>
  C1, as the source has it. The claim that in every state with \<open>game_over\<close> false a tick
  onto the food increments the score and spawns new food fails when the grown snake
  fills the grid: the food loop then finds no free cell and \<open>update\<close> never returns. On
  the grid of 2 by 1 cells this happens in a reachable state, whatever the random source
  draws (here: always \<open>(0, 0)\<close>, and always \<open>(1, 0)\<close>).
\<close>

theorem update_hangs_on_full_grid:
  "reachable 2 1 \<lparr>snake = [(1, 0)], direction = (- 1, 0), food = (0, 0), score = 0,
                   game_over = False, prev_hand_pos = Some (50, 100)\<rparr> \<and>
   update 2 1 \<lparr>snake = [(1, 0)], direction = (- 1, 0), food = (0, 0), score = 0,
                game_over = False, prev_hand_pos = Some (50, 100)\<rparr> (- 1, 0) (sconst 0)
     = None \<and>
   update 2 1 \<lparr>snake = [(1, 0)], direction = (- 1, 0), food = (0, 0), score = 0,
                game_over = False, prev_hand_pos = Some (50, 100)\<rparr> (- 1, 0) (sconst 1)
     = None"
  using reachable_example_2_1 update_example_2_1_never by blast

text \<open>
  C1, amended. One tick. In a state with \<open>game_over\<close> false and head cell \<open>h\<close>, \<open>update\<close>
  computes the new head \<open>nh\<close> as \<open>h\<close> plus the direction vector. If \<open>nh\<close> collides (it
  is in the snake or outside the grid), the result is the same state with \<open>game_over\<close> set
  and nothing else changed. Otherwise, if \<open>nh\<close> is not the food, \<open>nh\<close> is prepended and
  the tail cell removed, so the length is unchanged. Otherwise \<open>nh\<close> is the food, and
  \<open>update\<close> returns exactly when the food loop draws a cell off the grown snake: it
  returns at the first such iteration, with \<open>nh\<close> prepended, the score incremented by
  exactly 1 and that cell as the new food (the snake is one cell longer, the food off
  it); it never returns when no iteration draws such a cell, in particular when the
  grown snake fills the whole grid. It never raises in the food case.
\<close>

theorem update_tick:
  assumes "\<not> game_over g" and "snake g = h # t" and "nh = (fst h + fst d, snd h + snd d)"
  shows
  "(nh \<in> set (snake g) \<or> \<not> in_grid gw gh nh \<longrightarrow>
      update gw gh g d rs = Some (Inr (g\<lparr>game_over := True\<rparr>, rs))) \<and>
   (nh \<notin> set (snake g) \<and> in_grid gw gh nh \<and> nh \<noteq> food g \<longrightarrow>
      update gw gh g d rs = Some (Inr (g\<lparr>snake := butlast (nh # snake g)\<rparr>, rs)) \<and>
      length (butlast (nh # snake g)) = length (snake g)) \<and>
   (nh \<notin> set (snake g) \<and> in_grid gw gh nh \<and> nh = food g \<longrightarrow>
      (\<forall>n. (\<forall>m<n. draw_at gw gh rs m \<in> set (nh # snake g)) \<and>
           draw_at gw gh rs n \<notin> set (nh # snake g) \<longrightarrow>
           update gw gh g d rs =
             Some (Inr (g\<lparr>snake := nh # snake g, score := score g + 1,
                          food := draw_at gw gh rs n\<rparr>, sdrop (2 * n + 2) rs))) \<and>
      ((\<forall>n. draw_at gw gh rs n \<in> set (nh # snake g)) \<longrightarrow>
           update gw gh g d rs = None) \<and>
      ((\<forall>c. in_grid gw gh c \<longrightarrow> c \<in> set (nh # snake g)) \<longrightarrow>
           update gw gh g d rs = None) \<and>
      (\<forall>g' rs'. update gw gh g d rs = Some (Inr (g', rs')) \<longrightarrow>
           (\<exists>f. g' = g\<lparr>snake := nh # snake g, score := score g + 1, food := f\<rparr> \<and>
                f \<notin> set (nh # snake g) \<and> in_grid gw gh f) \<and>
           length (snake g') = length (snake g) + 1) \<and>
      (\<forall>e. update gw gh g d rs \<noteq> Some (Inl e)))"
proof (intro conjI impI allI)
  assume "nh \<in> set (snake g) \<or> \<not> in_grid gw gh nh"
  then show "update gw gh g d rs = Some (Inr (g\<lparr>game_over := True\<rparr>, rs))"
    using assms by (rule update_collision[rotated 3])
next
  assume "nh \<notin> set (snake g) \<and> in_grid gw gh nh \<and> nh \<noteq> food g"
  then show "update gw gh g d rs = Some (Inr (g\<lparr>snake := butlast (nh # snake g)\<rparr>, rs))"
    using assms update_move by blast
next
  show "length (butlast (nh # snake g)) = length (snake g)" by simp
next
  fix n
  assume eat: "nh \<notin> set (snake g) \<and> in_grid gw gh nh \<and> nh = food g"
    and n: "(\<forall>m<n. draw_at gw gh rs m \<in> set (nh # snake g)) \<and>
            draw_at gw gh rs n \<notin> set (nh # snake g)"
  from eat have pos: "0 < gw" "0 < gh" by (auto simp: in_grid_def)
  have nf: "new_food gw gh (nh # snake g) rs =
          Some (Inr (draw_at gw gh rs n, sdrop (2 * n + 2) rs))"
    using new_food_returns[OF pos, of n rs "nh # snake g"] n by blast
  have "update gw gh g d rs =
     (case new_food gw gh (nh # snake g) rs of
        None \<Rightarrow> None
      | Some (Inl e) \<Rightarrow> Some (Inl e)
      | Some (Inr (f, rs')) \<Rightarrow>
          Some (Inr (g\<lparr>snake := nh # snake g, score := score g + 1, food := f\<rparr>, rs')))"
    using update_eat[OF assms, of gw gh rs] eat by blast
  then show "update gw gh g d rs =
             Some (Inr (g\<lparr>snake := nh # snake g, score := score g + 1,
                          food := draw_at gw gh rs n\<rparr>, sdrop (2 * n + 2) rs))"
    unfolding nf by simp
next
  assume eat: "nh \<notin> set (snake g) \<and> in_grid gw gh nh \<and> nh = food g"
    and taken: "\<forall>n. draw_at gw gh rs n \<in> set (nh # snake g)"
  show "update gw gh g d rs = None"
    using update_eat_never[OF assms _ _ _ taken] eat by blast
next
  assume eat: "nh \<notin> set (snake g) \<and> in_grid gw gh nh \<and> nh = food g"
    and full: "\<forall>c. in_grid gw gh c \<longrightarrow> c \<in> set (nh # snake g)"
  from eat have pos: "0 < gw" "0 < gh" by (auto simp: in_grid_def)
  have taken: "\<forall>n. draw_at gw gh rs n \<in> set (nh # snake g)"
    using full draw_at_in_grid[OF pos, of rs] by blast
  show "update gw gh g d rs = None"
    using update_eat_never[OF assms _ _ _ taken] eat by blast
next
  fix g' rs'
  assume eat: "nh \<notin> set (snake g) \<and> in_grid gw gh nh \<and> nh = food g"
    and ret: "update gw gh g d rs = Some (Inr (g', rs'))"
  have "update gw gh g d rs =
     (case new_food gw gh (nh # snake g) rs of
        None \<Rightarrow> None
      | Some (Inl e) \<Rightarrow> Some (Inl e)
      | Some (Inr (f, rs')) \<Rightarrow>
          Some (Inr (g\<lparr>snake := nh # snake g, score := score g + 1, food := f\<rparr>, rs')))"
    using update_eat[OF assms, of gw gh rs] eat by blast
  with ret obtain f where f: "new_food gw gh (nh # snake g) rs = Some (Inr (f, rs'))"
    and g': "g' = g\<lparr>snake := nh # snake g, score := score g + 1, food := f\<rparr>"
    by (auto split: option.splits sum.splits)
  from f have "f \<notin> set (nh # snake g) \<and> in_grid gw gh f" by (rule new_food_sound)
  with g' show "\<exists>f. g' = g\<lparr>snake := nh # snake g, score := score g + 1, food := f\<rparr> \<and>
                f \<notin> set (nh # snake g) \<and> in_grid gw gh f" by blast
  from g' show "length (snake g') = length (snake g) + 1" by simp
next
  fix e
  show "update gw gh g d rs \<noteq> Some (Inl e)"
    using update_no_raise[of g gw gh d rs e] assms(2) by simp
qed

theorem update_tick_witness:
  "update 32 24 \<lparr>snake = [(16, 12)], direction = (1, 0), food = (17, 12), score = 0,
                  game_over = False, prev_hand_pos = None\<rparr> (1, 0) (sconst 0) =
     Some (Inr (\<lparr>snake = [(17, 12), (16, 12)], direction = (1, 0), food = (0, 0), score = 1,
                 game_over = False, prev_hand_pos = None\<rparr>, sconst 0)) \<and>
   update 32 24 \<lparr>snake = [(16, 12), (15, 12)], direction = (1, 0), food = (3, 3), score = 1,
                  game_over = False, prev_hand_pos = None\<rparr> (1, 0) (sconst 0) =
     Some (Inr (\<lparr>snake = [(17, 12), (16, 12)], direction = (1, 0), food = (3, 3), score = 1,
                 game_over = False, prev_hand_pos = None\<rparr>, sconst 0)) \<and>
   update 32 24 \<lparr>snake = [(31, 12), (30, 12)], direction = (1, 0), food = (3, 3), score = 1,
                  game_over = False, prev_hand_pos = None\<rparr> (1, 0) (sconst 0) =
     Some (Inr (\<lparr>snake = [(31, 12), (30, 12)], direction = (1, 0), food = (3, 3), score = 1,
                 game_over = True, prev_hand_pos = None\<rparr>, sconst 0)) \<and>
   update 2 1 \<lparr>snake = [(1, 0)], direction = (- 1, 0), food = (0, 0), score = 0,
                game_over = False, prev_hand_pos = None\<rparr> (- 1, 0) (sconst 5) = None"
proof -
  let ?a = "\<lparr>snake = [(16, 12)], direction = (1, 0), food = (17, 12), score = 0,
             game_over = False, prev_hand_pos = None\<rparr>"
  let ?b = "\<lparr>snake = [(16, 12), (15, 12)], direction = (1, 0), food = (3, 3), score = 1,
             game_over = False, prev_hand_pos = None\<rparr>"
  let ?c = "\<lparr>snake = [(31, 12), (30, 12)], direction = (1, 0), food = (3, 3), score = 1,
             game_over = False, prev_hand_pos = None\<rparr>"
  let ?e = "\<lparr>snake = [(1, 0)], direction = (- 1, 0), food = (0, 0), score = 0,
             game_over = False, prev_hand_pos = None\<rparr>"
  have nh: "(17, 12) = (fst (16 :: int, 12 :: int) + fst (1 :: int, 0 :: int),
                        snd (16 :: int, 12 :: int) + snd (1 :: int, 0 :: int))"
    and nh': "(32, 12) = (fst (31 :: int, 12 :: int) + fst (1 :: int, 0 :: int),
                        snd (31 :: int, 12 :: int) + snd (1 :: int, 0 :: int))"
    and nh'': "(0, 0) = (fst (1 :: int, 0 :: int) + fst (- 1 :: int, 0 :: int),
                        snd (1 :: int, 0 :: int) + snd (- 1 :: int, 0 :: int))"
    by simp_all
  have ga: "\<not> game_over ?a" "snake ?a = [(16, 12)]" by simp_all
  have gb: "\<not> game_over ?b" "snake ?b = (16, 12) # [(15, 12)]" by simp_all
  have gc: "\<not> game_over ?c" "snake ?c = (31, 12) # [(30, 12)]" by simp_all
  have ge: "\<not> game_over ?e" "snake ?e = (1, 0) # []" by simp_all
  note ta = update_tick[OF ga nh, of 32 24 "sconst 0"]
  note tb = update_tick[OF gb nh, of 32 24 "sconst 0"]
  note tc = update_tick[OF gc nh', of 32 24 "sconst 0"]
  note te = update_tick[OF ge nh'', of 2 1 "sconst 5"]
  have a: "update 32 24 ?a (1, 0) (sconst 0) =
     Some (Inr (?a\<lparr>snake := (17, 12) # snake ?a, score := score ?a + 1,
                     food := draw_at 32 24 (sconst 0) 0\<rparr>, sdrop (2 * 0 + 2) (sconst 0)))"
  proof -
    have "(17, 12) \<notin> set (snake ?a) \<and> in_grid 32 24 (17, 12) \<and> (17, 12) = food ?a"
      by (simp add: in_grid_def)
    moreover have "(\<forall>m<0::nat. draw_at 32 24 (sconst 0) m \<in> set ((17, 12) # snake ?a)) \<and>
        draw_at 32 24 (sconst 0) 0 \<notin> set ((17, 12) # snake ?a)"
      by simp
    ultimately show ?thesis using ta by blast
  qed
  have b: "update 32 24 ?b (1, 0) (sconst 0) =
     Some (Inr (?b\<lparr>snake := butlast ((17, 12) # snake ?b)\<rparr>, sconst 0))"
  proof -
    have "(17, 12) \<notin> set (snake ?b) \<and> in_grid 32 24 (17, 12) \<and> (17, 12) \<noteq> food ?b"
      by (simp add: in_grid_def)
    then show ?thesis using tb by blast
  qed
  have c: "update 32 24 ?c (1, 0) (sconst 0) = Some (Inr (?c\<lparr>game_over := True\<rparr>, sconst 0))"
  proof -
    have "(32, 12) \<in> set (snake ?c) \<or> \<not> in_grid 32 24 (32, 12)"
      by (simp add: in_grid_def)
    then show ?thesis using tc by blast
  qed
  have e: "update 2 1 ?e (- 1, 0) (sconst 5) = None"
  proof -
    have "(0, 0) \<notin> set (snake ?e) \<and> in_grid 2 1 (0, 0) \<and> (0, 0) = food ?e"
      by (simp add: in_grid_def)
    moreover have "\<forall>c. in_grid 2 1 c \<longrightarrow> c \<in> set ((0, 0) # snake ?e)"
      using grid_2_1_cells by simp
    ultimately show ?thesis using te by blast
  qed
  show ?thesis
    unfolding a b c e by simp
qed

text \<open>
  C2. In every reachable state the cells of the snake body are pairwise distinct. This
  holds whether or not \<open>game_over\<close> is set, so in particular in every reachable state in
  which it is false: the snake never occupies a cell twice.
\<close>

theorem snake_cells_distinct:
  "reachable gw gh g \<Longrightarrow> distinct (snake g)"
proof (induction rule: reachable.induct)
  case (r_init rs g rs')
  then show ?case using init_returns by fastforce
next
  case (r_reset g rs g' rs')
  then show ?case using reset_returns by fastforce
next
  case (r_update g d rs g' rs')
  then show ?case using update_distinct by blast
next
  case (r_steer g hp)
  then show ?case by (simp add: steer_snake)
qed

theorem snake_cells_distinct_witness:
  "reachable 32 24 \<lparr>snake = [(17, 12), (16, 12)], direction = (1, 0), food = (0, 0),
                     score = 1, game_over = False, prev_hand_pos = Some (150, 100)\<rparr> \<and>
   distinct [(17, 12), (16, 12) :: cell]"
  using snake_cells_distinct[OF reachable_example] reachable_example by simp

text \<open>
  C3. Whenever \<open>new_food\<close> returns a cell, the cell is a grid cell that is not in the
  snake body it was called on. This holds for the call itself, for the call made by
  \<open>reset\<close> (the food of the state after \<open>reset\<close> is in the grid and off the new snake),
  and for the call made by \<open>update\<close> when food is eaten (the one branch that changes the
  score): the new food is off the grown snake, new head included.
\<close>

theorem new_food_off_snake:
  "(new_food gw gh snk rs = Some (Inr (c, rs')) \<longrightarrow> c \<notin> set snk \<and> in_grid gw gh c) \<and>
   (reset gw gh g rs = Some (Inr (g', rs')) \<longrightarrow>
      food g' \<notin> set (snake g') \<and> in_grid gw gh (food g')) \<and>
   (update gw gh g d rs = Some (Inr (g', rs')) \<and> score g' \<noteq> score g \<longrightarrow>
      food g' \<notin> set (snake g') \<and> in_grid gw gh (food g'))"
proof (intro conjI impI)
  assume "new_food gw gh snk rs = Some (Inr (c, rs'))"
  then show "c \<notin> set snk" "in_grid gw gh c" using new_food_sound by blast+
next
  assume "reset gw gh g rs = Some (Inr (g', rs'))"
  then obtain f where "new_food gw gh [(gw div 2, gh div 2)] rs = Some (Inr (f, rs'))"
    and "snake g' = [(gw div 2, gh div 2)]" and "food g' = f"
    using reset_returns by fastforce
  then show "food g' \<notin> set (snake g')" "in_grid gw gh (food g')"
    using new_food_sound by fastforce+
next
  assume "update gw gh g d rs = Some (Inr (g', rs')) \<and> score g' \<noteq> score g"
  then obtain nh f where "new_food gw gh (nh # snake g) rs = Some (Inr (f, rs'))"
    and "snake g' = nh # snake g" and "food g' = f"
    using update_food_branch[of gw gh g d rs g' rs'] by fastforce
  then show "food g' \<notin> set (snake g')" "in_grid gw gh (food g')"
    using new_food_sound[of gw gh "nh # snake g" rs f rs'] by simp_all
qed

theorem new_food_off_snake_witness:
  "new_food 32 24 [(16, 12)] (sconst 0) = Some (Inr ((0, 0), sconst 0)) \<and>
   (0, 0) \<notin> set [(16, 12) :: cell] \<and> in_grid 32 24 (0, 0) \<and>
   food \<lparr>snake = [(16, 12)], direction = (0, 0), food = (0, 0), score = 0,
         game_over = False, prev_hand_pos = Some (100, 100)\<rparr>
     \<notin> set (snake \<lparr>snake = [(16, 12)], direction = (0, 0), food = (0, 0), score = 0,
         game_over = False, prev_hand_pos = Some (100, 100)\<rparr>) \<and>
   food \<lparr>snake = [(17, 12), (16, 12)], direction = (1, 0), food = (0, 0), score = 1,
         game_over = False, prev_hand_pos = None\<rparr>
     \<notin> set (snake \<lparr>snake = [(17, 12), (16, 12)], direction = (1, 0), food = (0, 0),
         score = 1, game_over = False, prev_hand_pos = None\<rparr>)"
proof -
  let ?r = "\<lparr>snake = [(3, 4), (3, 5)], direction = (0, - 1), food = (9, 9), score = 7,
             game_over = True, prev_hand_pos = Some (100, 100)\<rparr>"
  let ?r' = "\<lparr>snake = [(16, 12)], direction = (0, 0), food = (0, 0), score = 0,
         game_over = False, prev_hand_pos = Some (100, 100)\<rparr>"
  let ?u = "\<lparr>snake = [(16, 12)], direction = (1, 0), food = (17, 12), score = 0,
             game_over = False, prev_hand_pos = None\<rparr>"
  let ?u' = "\<lparr>snake = [(17, 12), (16, 12)], direction = (1, 0), food = (0, 0), score = 1,
         game_over = False, prev_hand_pos = None\<rparr>"
  have sc: "score ?u' \<noteq> score ?u" by simp
  have a: "(0, 0) \<notin> set [(16, 12) :: cell] \<and> in_grid 32 24 (0, 0)"
    using new_food_off_snake[of 32 24 "[(16, 12)]" "sconst 0" "(0, 0)" "sconst 0"]
      new_food_example by blast
  have b: "food ?r' \<notin> set (snake ?r')"
    using new_food_off_snake[where gw = 32 and gh = 24 and rs = "sconst 0"
          and rs' = "sconst 0" and g = ?r and g' = ?r'] reset_example
    by blast
  have c: "food ?u' \<notin> set (snake ?u')"
    using new_food_off_snake[where gw = 32 and gh = 24 and rs = "sconst 0"
          and rs' = "sconst 0" and g = ?u and g' = ?u' and d = "(1, 0)"]
      update_example_food sc
    by blast
  from a b c new_food_example show ?thesis by blast
qed

text \<open>
  C4, as the source has it. The claim that \<open>reset\<close> restores every component of the game
  object to its initial value fails on \<open>prev_hand_pos\<close>: \<open>reset\<close> does not assign it.
  A game object that has seen the hand at \<open>(100, 100)\<close> still holds that position after
  \<open>reset\<close>, while a freshly built object holds \<open>None\<close>.
\<close>

theorem reset_keeps_prev_hand_pos:
  "reset 32 24 \<lparr>snake = [(3, 4), (3, 5)], direction = (0, - 1), food = (9, 9), score = 7,
                 game_over = True, prev_hand_pos = Some (100, 100)\<rparr> (sconst 0) =
     Some (Inr (\<lparr>snake = [(16, 12)], direction = (0, 0), food = (0, 0), score = 0,
                 game_over = False, prev_hand_pos = Some (100, 100)\<rparr>, sconst 0)) \<and>
   SnakeGame_init 32 24 (sconst 0) =
     Some (Inr (\<lparr>snake = [(16, 12)], direction = (0, 0), food = (0, 0), score = 0,
                 game_over = False, prev_hand_pos = None\<rparr>, sconst 0)) \<and>
   prev_hand_pos \<lparr>snake = [(16, 12)], direction = (0, 0), food = (0, 0), score = 0,
                 game_over = False, prev_hand_pos = Some (100, 100)\<rparr> \<noteq>
   prev_hand_pos \<lparr>snake = [(16, 12)], direction = (0, 0), food = (0, 0), score = 0,
                 game_over = False, prev_hand_pos = None\<rparr>"
  using reset_example init_example by simp

text \<open>
  C4, amended. Whenever \<open>reset\<close> returns, from any state (game over or not): the snake
  is the single centre cell, the direction is \<open>(0, 0)\<close>, the score is 0, \<open>game_over\<close> is
  false, the food is a freshly drawn grid cell off the snake, and \<open>prev_hand_pos\<close> keeps
  the value it had before; apart from \<open>prev_hand_pos\<close> the state is the one \<open>__init__\<close>
  builds from the same random source. On a grid with positive dimensions \<open>reset\<close>
  returns at the first iteration of the food loop that draws a cell other than the centre.
\<close>

theorem reset_sets_game_fields:
  "(\<forall>g' rs'. reset gw gh g rs = Some (Inr (g', rs')) \<longrightarrow>
      snake g' = [(gw div 2, gh div 2)] \<and> direction g' = (0, 0) \<and> score g' = 0 \<and>
      \<not> game_over g' \<and> food g' \<notin> set (snake g') \<and> in_grid gw gh (food g') \<and>
      prev_hand_pos g' = prev_hand_pos g \<and>
      SnakeGame_init gw gh rs = Some (Inr (g'\<lparr>prev_hand_pos := None\<rparr>, rs'))) \<and>
   (\<forall>n. 0 < gw \<and> 0 < gh \<and> (\<forall>m<n. draw_at gw gh rs m = (gw div 2, gh div 2)) \<and>
        draw_at gw gh rs n \<noteq> (gw div 2, gh div 2) \<longrightarrow>
      reset gw gh g rs =
        Some (Inr (\<lparr>snake = [(gw div 2, gh div 2)], direction = (0, 0),
                    food = draw_at gw gh rs n, score = 0, game_over = False,
                    prev_hand_pos = prev_hand_pos g\<rparr>, sdrop (2 * n + 2) rs)))"
proof (intro conjI allI impI)
  fix g' rs'
  assume r: "reset gw gh g rs = Some (Inr (g', rs'))"
  then obtain f where f: "new_food gw gh [(gw div 2, gh div 2)] rs = Some (Inr (f, rs'))"
    and g': "g' = g\<lparr>snake := [(gw div 2, gh div 2)], direction := (0, 0), food := f,
              score := 0, game_over := False\<rparr>"
    using reset_returns by blast
  from g' show "snake g' = [(gw div 2, gh div 2)]" "direction g' = (0, 0)" "score g' = 0"
    "\<not> game_over g'" "prev_hand_pos g' = prev_hand_pos g" by simp_all
  from f g' show "food g' \<notin> set (snake g')" "in_grid gw gh (food g')"
    using new_food_sound[OF f] by simp_all
  from f g' show "SnakeGame_init gw gh rs = Some (Inr (g'\<lparr>prev_hand_pos := None\<rparr>, rs'))"
    by (simp add: SnakeGame_init_def reset_def blank_def)
next
  fix n
  assume h: "0 < gw \<and> 0 < gh \<and> (\<forall>m<n. draw_at gw gh rs m = (gw div 2, gh div 2)) \<and>
        draw_at gw gh rs n \<noteq> (gw div 2, gh div 2)"
  then have "new_food gw gh [(gw div 2, gh div 2)] rs =
      Some (Inr (draw_at gw gh rs n, sdrop (2 * n + 2) rs))"
    using new_food_returns[of gw gh n rs "[(gw div 2, gh div 2)]"] by simp
  then show "reset gw gh g rs =
        Some (Inr (\<lparr>snake = [(gw div 2, gh div 2)], direction = (0, 0),
                    food = draw_at gw gh rs n, score = 0, game_over = False,
                    prev_hand_pos = prev_hand_pos g\<rparr>, sdrop (2 * n + 2) rs))"
    by (cases g) (simp add: reset_def)
qed

theorem reset_sets_game_fields_witness:
  "reset 32 24 \<lparr>snake = [(3, 4), (3, 5)], direction = (0, - 1), food = (9, 9), score = 7,
                 game_over = True, prev_hand_pos = Some (100, 100)\<rparr> (sconst 0) =
     Some (Inr (\<lparr>snake = [(16, 12)], direction = (0, 0), food = (0, 0), score = 0,
                 game_over = False, prev_hand_pos = Some (100, 100)\<rparr>, sconst 0))"
proof -
  let ?g = "\<lparr>snake = [(3, 4), (3, 5)], direction = (0, - 1), food = (9, 9), score = 7,
                 game_over = True, prev_hand_pos = Some (100, 100)\<rparr>"
  have "0 < (32 :: int) \<and> 0 < (24 :: int) \<and>
        (\<forall>m<0::nat. draw_at 32 24 (sconst 0) m = (32 div 2, 24 div 2)) \<and>
        draw_at 32 24 (sconst 0) 0 \<noteq> (32 div 2, 24 div 2)"
    by simp
  then have "reset 32 24 ?g (sconst 0) =
        Some (Inr (\<lparr>snake = [(32 div 2, 24 div 2)], direction = (0, 0),
                    food = draw_at 32 24 (sconst 0) 0, score = 0, game_over = False,
                    prev_hand_pos = prev_hand_pos ?g\<rparr>, sdrop (2 * 0 + 2) (sconst 0)))"
    using reset_sets_game_fields[of 32 24 ?g "sconst 0"] by blast
  then show ?thesis by simp
qed

text \<open>
  C5, as the source has it. The claim that the direction is always one of the four
  cardinal unit vectors fails in the initial state: \<open>reset\<close> sets the direction to
  \<open>(0, 0)\<close>, and it stays so until a gesture is applied.
\<close>

theorem direction_not_always_cardinal:
  "reachable (GRID_WIDTH 640) (GRID_HEIGHT 480)
     \<lparr>snake = [(16, 12)], direction = (0, 0), food = (0, 0), score = 0,
      game_over = False, prev_hand_pos = None\<rparr> \<and>
   direction \<lparr>snake = [(16, 12)], direction = (0, 0), food = (0, 0), score = 0,
      game_over = False, prev_hand_pos = None\<rparr>
     \<notin> {(1, 0), (- 1, 0), (0, 1), (0, - 1)}"
  using r_init[OF init_example] grid_640_480 by simp

text \<open>
  C5, amended. In every reachable state the direction is \<open>(0, 0)\<close> or one of the four
  cardinal unit vectors \<open>(1, 0)\<close>, \<open>(-1, 0)\<close>, \<open>(0, 1)\<close>, \<open>(0, -1)\<close>.
\<close>

theorem direction_zero_or_cardinal:
  "reachable gw gh g \<Longrightarrow> direction g \<in> {(0, 0), (1, 0), (- 1, 0), (0, 1), (0, - 1)}"
proof (induction rule: reachable.induct)
  case (r_init rs g rs')
  then show ?case using init_returns by fastforce
next
  case (r_reset g rs g' rs')
  then show ?case using reset_returns by fastforce
next
  case (r_update g d rs g' rs')
  then show ?case using update_direction by metis
next
  case (r_steer g hp)
  then show ?case using steer_direction[of g hp] by auto
qed

theorem direction_zero_or_cardinal_witness:
  "reachable 32 24 \<lparr>snake = [(17, 12), (16, 12)], direction = (1, 0), food = (0, 0),
                     score = 1, game_over = False, prev_hand_pos = Some (150, 100)\<rparr> \<and>
   (1, 0) \<in> {(0, 0), (1, 0), (- 1, 0), (0, 1), (0, - 1) :: int \<times> int}"
  using direction_zero_or_cardinal[OF reachable_example] reachable_example by simp

text \<open>
  C6. A candidate that is the componentwise negation of the current direction is not
  applied: when the previous hand position is known, the displacement to the new hand
  position yields the candidate \<open>c\<close>, the snake is longer than one cell and \<open>c\<close> is the
  reverse of the current direction, the direction-update step leaves the direction
  unchanged. (The source does not look at the length of the snake; the reverse is
  rejected at every length.)
\<close>

theorem reverse_rejected:
  "prev_hand_pos g = Some pp \<Longrightarrow>
   candidate (fst hp - fst pp) (snd hp - snd pp) = Some c \<Longrightarrow>
   length (snake g) > 1 \<Longrightarrow>
   c = (- fst (direction g), - snd (direction g)) \<Longrightarrow>
   direction (steer g (Some hp)) = direction g"
  by (simp add: steer_def)

theorem reverse_rejected_witness:
  "candidate (100 - 150) (100 - 100) = Some (- 1, 0) \<and>
   direction (steer \<lparr>snake = [(17, 12), (16, 12)], direction = (1, 0), food = (0, 0),
                     score = 1, game_over = False, prev_hand_pos = Some (150, 100)\<rparr>
                (Some (100, 100))) = (1, 0)"
proof -
  let ?g = "\<lparr>snake = [(17, 12), (16, 12)], direction = (1, 0), food = (0, 0),
             score = 1, game_over = False, prev_hand_pos = Some (150, 100)\<rparr>"
  have p: "prev_hand_pos ?g = Some (150, 100)" by simp
  have c: "candidate (fst (100 :: int, 100 :: int) - fst (150 :: int, 100 :: int))
             (snd (100 :: int, 100 :: int) - snd (150 :: int, 100 :: int)) = Some (- 1, 0)"
    by (simp add: candidate_def)
  have l: "length (snake ?g) > 1" by simp
  have r: "(- 1, 0) = (- fst (direction ?g), - snd (direction ?g))" by simp
  have "direction (steer ?g (Some (100, 100))) = direction ?g"
    using p c l r by (rule reverse_rejected)
  moreover have "candidate (100 - 150) (100 - 100) = Some (- 1, 0)"
    by (simp add: candidate_def)
  ultimately show ?thesis by simp
qed

text \<open>
  C7, as the source has it. The claim that, while \<open>game_over\<close> is true, only \<open>reset\<close>
  changes the state fails on the direction-update step of \<open>main\<close>, which is not gated by
  \<open>game_over\<close>: in a reachable state with \<open>game_over\<close> true, a hand movement of 50
  pixels downwards changes the direction from \<open>(0, 0)\<close> to \<open>(0, 1)\<close>.
\<close>

theorem steering_changes_direction_when_game_over:
  "reachable 32 24 \<lparr>snake = [(16, 12)], direction = (0, 0), food = (0, 0), score = 0,
                     game_over = True, prev_hand_pos = Some (100, 100)\<rparr> \<and>
   game_over \<lparr>snake = [(16, 12)], direction = (0, 0), food = (0, 0), score = 0,
              game_over = True, prev_hand_pos = Some (100, 100)\<rparr> \<and>
   steer \<lparr>snake = [(16, 12)], direction = (0, 0), food = (0, 0), score = 0,
          game_over = True, prev_hand_pos = Some (100, 100)\<rparr> (Some (100, 150)) =
     \<lparr>snake = [(16, 12)], direction = (0, 1), food = (0, 0), score = 0,
      game_over = True, prev_hand_pos = Some (100, 150)\<rparr> \<and>
   direction \<lparr>snake = [(16, 12)], direction = (0, 1), food = (0, 0), score = 0,
      game_over = True, prev_hand_pos = Some (100, 150)\<rparr> \<noteq>
   direction \<lparr>snake = [(16, 12)], direction = (0, 0), food = (0, 0), score = 0,
      game_over = True, prev_hand_pos = Some (100, 100)\<rparr>"
  using reachable_example_game_over steer_example_game_over_down by simp

text \<open>
  C7, amended. While \<open>game_over\<close> is true, \<open>update\<close> is a no-op for every direction
  argument: it returns the very same state (snake, food, score, direction, \<open>game_over\<close>
  and \<open>prev_hand_pos\<close>) and consumes nothing of the random source. \<open>reset\<close> changes the
  state: whenever it returns, \<open>game_over\<close> is false, and on a grid with positive
  dimensions it returns on every random source that draws a cell other than the centre.
  The direction-update step of \<open>main\<close> still runs: it leaves snake, food, score and
  \<open>game_over\<close> unchanged, and may change the direction and \<open>prev_hand_pos\<close>.
\<close>

theorem update_no_op_when_game_over:
  assumes "game_over g"
  shows
  "update gw gh g d rs = Some (Inr (g, rs)) \<and>
   (\<forall>g' rs'. reset gw gh g rs = Some (Inr (g', rs')) \<longrightarrow> \<not> game_over g' \<and> g' \<noteq> g) \<and>
   (0 < gw \<and> 0 < gh \<and> (\<exists>n. draw_at gw gh rs n \<noteq> (gw div 2, gh div 2)) \<longrightarrow>
      (\<exists>g' rs'. reset gw gh g rs = Some (Inr (g', rs')) \<and> \<not> game_over g')) \<and>
   snake (steer g hp) = snake g \<and> food (steer g hp) = food g \<and>
   score (steer g hp) = score g \<and> game_over (steer g hp)"
proof (intro conjI allI impI)
  show "update gw gh g d rs = Some (Inr (g, rs))" using assms by (rule update_game_over)
next
  fix g' rs'
  assume "reset gw gh g rs = Some (Inr (g', rs'))"
  then show "\<not> game_over g'" using reset_returns by fastforce
  with assms show "g' \<noteq> g" by auto
next
  assume "0 < gw \<and> 0 < gh \<and> (\<exists>n. draw_at gw gh rs n \<noteq> (gw div 2, gh div 2))"
  then obtain g' rs' where r: "reset gw gh g rs = Some (Inr (g', rs'))"
    using reset_returns_ex[of gw gh rs _ g] by blast
  then have "\<not> game_over g'" using reset_returns by fastforce
  with r show "\<exists>g' rs'. reset gw gh g rs = Some (Inr (g', rs')) \<and> \<not> game_over g'" by blast
next
  show "snake (steer g hp) = snake g" by (rule steer_snake)
  show "food (steer g hp) = food g" by (rule steer_food)
  show "score (steer g hp) = score g" by (rule steer_score)
  show "game_over (steer g hp)" using assms by (simp add: steer_game_over)
qed

theorem update_no_op_when_game_over_witness:
  "update 32 24 \<lparr>snake = [(3, 4), (3, 5)], direction = (0, - 1), food = (9, 9), score = 7,
                 game_over = True, prev_hand_pos = Some (100, 100)\<rparr> (0, - 1) (sconst 0) =
     Some (Inr (\<lparr>snake = [(3, 4), (3, 5)], direction = (0, - 1), food = (9, 9), score = 7,
                 game_over = True, prev_hand_pos = Some (100, 100)\<rparr>, sconst 0)) \<and>
   (\<exists>g' rs'. reset 32 24 \<lparr>snake = [(3, 4), (3, 5)], direction = (0, - 1), food = (9, 9),
                 score = 7, game_over = True, prev_hand_pos = Some (100, 100)\<rparr> (sconst 0) =
        Some (Inr (g', rs')) \<and> \<not> game_over g') \<and>
   game_over (steer \<lparr>snake = [(3, 4), (3, 5)], direction = (0, - 1), food = (9, 9),
                 score = 7, game_over = True, prev_hand_pos = Some (100, 100)\<rparr>
                 (Some (150, 100)))"
proof -
  let ?g = "\<lparr>snake = [(3, 4), (3, 5)], direction = (0, - 1), food = (9, 9), score = 7,
             game_over = True, prev_hand_pos = Some (100, 100)\<rparr>"
  have go: "game_over ?g" by simp
  note t = update_no_op_when_game_over[OF go, of 32 24 "(0, - 1)" "sconst 0" "Some (150, 100)"]
  have "0 < (32 :: int) \<and> 0 < (24 :: int) \<and>
        (\<exists>n. draw_at 32 24 (sconst 0) n \<noteq> (32 div 2, 24 div 2))"
    by simp
  with t show ?thesis by blast
qed

text \<open>
  C8. The gesture classifier, for a displacement \<open>(dx, dy)\<close>. The dominant axis is the
  horizontal one if \<open>\<bar>dx\<bar> > \<bar>dy\<bar>\<close>, else the vertical one. A candidate is proposed exactly
  when the magnitude of the displacement on the dominant axis exceeds 20, and it is the
  unit vector along the dominant axis with the sign of the displacement on that axis.
\<close>

theorem candidate_dominant_axis:
  "candidate dx dy =
     (if (if \<bar>dx\<bar> > \<bar>dy\<bar> then \<bar>dx\<bar> else \<bar>dy\<bar>) > 20
      then Some (if \<bar>dx\<bar> > \<bar>dy\<bar> then (sgn dx, 0) else (0, sgn dy))
      else None)"
  by (auto simp: candidate_def sgn_if)

theorem candidate_dominant_axis_witness:
  "candidate 50 (- 10) = Some (1, 0) \<and> candidate (- 5) (- 30) = Some (0, - 1) \<and>
   candidate 30 30 = Some (0, 1) \<and> candidate 20 (- 20) = None"
  using candidate_dominant_axis[of 50 "- 10"] candidate_dominant_axis[of "- 5" "- 30"]
    candidate_dominant_axis[of 30 30] candidate_dominant_axis[of 20 "- 20"]
  by simp

text \<open>
  C9. The collision test looks at the whole snake body before the move. In a state with
  \<open>game_over\<close> false and head \<open>h\<close>: if \<open>h\<close> plus the direction is any cell of the body,
  \<open>update\<close> sets \<open>game_over\<close> and leaves snake, food and score (and everything else)
  unchanged. This includes the head itself, so a tick with direction \<open>(0, 0)\<close> always ends
  the game, and the tail cell that this tick would vacate. In particular the first tick on
  a freshly built game object, taken with its own initial direction, ends the game.
\<close>

theorem collision_with_body:
  assumes "\<not> game_over g" and "snake g = h # t"
  shows
  "((fst h + fst d, snd h + snd d) \<in> set (snake g) \<longrightarrow>
      update gw gh g d rs = Some (Inr (g\<lparr>game_over := True\<rparr>, rs))) \<and>
   update gw gh g (0, 0) rs = Some (Inr (g\<lparr>game_over := True\<rparr>, rs)) \<and>
   (t \<noteq> [] \<and> (fst h + fst d, snd h + snd d) = last t \<longrightarrow>
      update gw gh g d rs = Some (Inr (g\<lparr>game_over := True\<rparr>, rs))) \<and>
   (\<forall>rs0 g0 rs1. SnakeGame_init gw gh rs0 = Some (Inr (g0, rs1)) \<longrightarrow>
      update gw gh g0 (direction g0) rs = Some (Inr (g0\<lparr>game_over := True\<rparr>, rs)))"
proof (intro conjI impI allI)
  assume "(fst h + fst d, snd h + snd d) \<in> set (snake g)"
  then show "update gw gh g d rs = Some (Inr (g\<lparr>game_over := True\<rparr>, rs))"
    using update_collision[OF assms refl, of d gw gh rs] by blast
next
  have "(fst h + fst (0 :: int, 0 :: int), snd h + snd (0 :: int, 0 :: int)) \<in> set (snake g)"
    using assms(2) by simp
  then show "update gw gh g (0, 0) rs = Some (Inr (g\<lparr>game_over := True\<rparr>, rs))"
    using update_collision[OF assms refl, of "(0, 0)" gw gh rs] by blast
next
  assume "t \<noteq> [] \<and> (fst h + fst d, snd h + snd d) = last t"
  then have "(fst h + fst d, snd h + snd d) \<in> set (snake g)"
    using assms(2) last_in_set[of t] by simp
  then show "update gw gh g d rs = Some (Inr (g\<lparr>game_over := True\<rparr>, rs))"
    using update_collision[OF assms refl, of d gw gh rs] by blast
next
  fix rs0 g0 rs1
  assume "SnakeGame_init gw gh rs0 = Some (Inr (g0, rs1))"
  then obtain f where g0: "g0 = \<lparr>snake = [(gw div 2, gh div 2)], direction = (0, 0), food = f,
              score = 0, game_over = False, prev_hand_pos = None\<rparr>"
    using init_returns by blast
  then show "update gw gh g0 (direction g0) rs = Some (Inr (g0\<lparr>game_over := True\<rparr>, rs))"
    by (simp add: update_def)
qed

theorem collision_with_body_witness:
  "update 32 24 \<lparr>snake = [(5, 5), (5, 6), (6, 6), (6, 5)], direction = (1, 0), food = (9, 9),
                  score = 3, game_over = False, prev_hand_pos = None\<rparr> (1, 0) (sconst 0) =
     Some (Inr (\<lparr>snake = [(5, 5), (5, 6), (6, 6), (6, 5)], direction = (1, 0), food = (9, 9),
                  score = 3, game_over = True, prev_hand_pos = None\<rparr>, sconst 0)) \<and>
   update 32 24 \<lparr>snake = [(16, 12)], direction = (0, 0), food = (0, 0), score = 0,
                  game_over = False, prev_hand_pos = None\<rparr> (0, 0) (sconst 0) =
     Some (Inr (\<lparr>snake = [(16, 12)], direction = (0, 0), food = (0, 0), score = 0,
                  game_over = True, prev_hand_pos = None\<rparr>, sconst 0))"
proof -
  let ?g = "\<lparr>snake = [(5, 5), (5, 6), (6, 6), (6, 5)], direction = (1, 0), food = (9, 9),
                  score = 3, game_over = False, prev_hand_pos = None\<rparr>"
  let ?i = "\<lparr>snake = [(16, 12)], direction = (0, 0), food = (0, 0), score = 0,
                  game_over = False, prev_hand_pos = None\<rparr>"
  have a: "update 32 24 ?g (1, 0) (sconst 0) = Some (Inr (?g\<lparr>game_over := True\<rparr>, sconst 0))"
    using collision_with_body[of ?g "(5, 5)" "[(5, 6), (6, 6), (6, 5)]" "(1, 0)" 32 24 "sconst 0",
        THEN conjunct2, THEN conjunct2, THEN conjunct1]
    by simp
  have b: "update 32 24 ?i (0, 0) (sconst 0) = Some (Inr (?i\<lparr>game_over := True\<rparr>, sconst 0))"
    using collision_with_body[of ?i "(16, 12)" "[]" _ 32 24 "sconst 0",
        THEN conjunct2, THEN conjunct1]
    by simp
  from a b show ?thesis by simp
qed

text \<open>
  C10. The rejection-sampling loop of \<open>new_food\<close>. If some grid cell is free, some random
  source makes the loop return. On a grid with positive dimensions the loop returns
  exactly on the random sources that draw a free cell at some iteration: it returns if
  one does, and runs forever (\<open>None\<close>) if none does. Whatever it returns lies inside the
  grid. If the snake occupies every grid cell, the loop never returns, whatever the
  random source.
\<close>

theorem new_food_terminates:
  "((\<exists>c. in_grid gw gh c \<and> c \<notin> set snk) \<longrightarrow>
      (\<exists>rs c rs'. new_food gw gh snk rs = Some (Inr (c, rs')))) \<and>
   (0 < gw \<and> 0 < gh \<and> (\<exists>n. draw_at gw gh rs n \<notin> set snk) \<longrightarrow>
      (\<exists>c rs'. new_food gw gh snk rs = Some (Inr (c, rs')))) \<and>
   (0 < gw \<and> 0 < gh \<and> (\<forall>n. draw_at gw gh rs n \<in> set snk) \<longrightarrow>
      new_food gw gh snk rs = None) \<and>
   (\<forall>c rs'. new_food gw gh snk rs = Some (Inr (c, rs')) \<longrightarrow> in_grid gw gh c) \<and>
   (0 < gw \<and> 0 < gh \<and> (\<forall>c. in_grid gw gh c \<longrightarrow> c \<in> set snk) \<longrightarrow>
      new_food gw gh snk rs = None)"
proof (intro conjI impI allI)
  assume "\<exists>c. in_grid gw gh c \<and> c \<notin> set snk"
  then obtain x y where xy: "in_grid gw gh (x, y)" "(x, y) \<notin> set snk" by auto
  then have pos: "0 < gw" "0 < gh" by (auto simp: in_grid_def)
  have "draw_at gw gh (nat x ## nat y ## sconst 0) 0 = (x, y)"
    using xy(1) by (simp add: draw_at_def in_grid_def)
  then have "new_food gw gh snk (nat x ## nat y ## sconst 0) = Some (Inr ((x, y), sconst 0))"
    using new_food_step_free[OF pos, of "nat x ## nat y ## sconst 0" snk] xy(2) by simp
  then show "\<exists>rs c rs'. new_food gw gh snk rs = Some (Inr (c, rs'))" by blast
next
  assume "0 < gw \<and> 0 < gh \<and> (\<exists>n. draw_at gw gh rs n \<notin> set snk)"
  then show "\<exists>c rs'. new_food gw gh snk rs = Some (Inr (c, rs'))"
    using new_food_returns_ex[of gw gh rs _ snk] by blast
next
  assume "0 < gw \<and> 0 < gh \<and> (\<forall>n. draw_at gw gh rs n \<in> set snk)"
  then show "new_food gw gh snk rs = None"
    using new_food_never[of gw gh rs snk] by blast
next
  fix c rs'
  assume "new_food gw gh snk rs = Some (Inr (c, rs'))"
  then show "in_grid gw gh c" using new_food_sound by blast
next
  assume h: "0 < gw \<and> 0 < gh \<and> (\<forall>c. in_grid gw gh c \<longrightarrow> c \<in> set snk)"
  then have "\<forall>n. draw_at gw gh rs n \<in> set snk"
    using draw_at_in_grid[of gw gh rs] by blast
  then show "new_food gw gh snk rs = None"
    using new_food_never[of gw gh rs snk] h by blast
qed

theorem new_food_terminates_witness:
  "(\<exists>rs c rs'. new_food 2 1 [(0, 0)] rs = Some (Inr (c, rs'))) \<and>
   (\<exists>c rs'. new_food 2 1 [(0, 0)] (sconst 1) = Some (Inr (c, rs'))) \<and>
   new_food 2 1 [(0, 0)] (sconst 0) = None \<and>
   new_food 2 1 [(0, 0), (1, 0)] (sconst 1) = None"
proof -
  have pos: "(0::int) < 2 \<and> (0::int) < 1" by simp
  have free: "\<exists>c. in_grid 2 1 c \<and> c \<notin> set [(0, 0)]"
  proof
    show "in_grid 2 1 (1, 0) \<and> (1, 0) \<notin> set [(0, 0) :: cell]" by (simp add: in_grid_def)
  qed
  have full: "\<forall>c. in_grid 2 1 c \<longrightarrow> c \<in> set [(0, 0), (1, 0)]"
  proof (intro allI impI)
    fix c :: cell
    assume "in_grid 2 1 c"
    then have "fst c = 0 \<or> fst c = 1" "snd c = 0" by (auto simp: in_grid_def)
    then show "c \<in> set [(0, 0), (1, 0)]" by (cases c) auto
  qed
  have d1: "\<exists>n. draw_at 2 1 (sconst 1) n \<notin> set [(0, 0)]" by simp
  have d0: "\<forall>n. draw_at 2 1 (sconst 0) n \<in> set [(0, 0)]" by simp
  note t1 = new_food_terminates[of 2 1 "[(0, 0)]" "sconst 1"]
  note t0 = new_food_terminates[of 2 1 "[(0, 0)]" "sconst 0"]
  note tf = new_food_terminates[of 2 1 "[(0, 0), (1, 0)]" "sconst 1"]
  have a: "\<exists>rs c rs'. new_food 2 1 [(0, 0)] rs = Some (Inr (c, rs'))"
    using t1 free by blast
  have b: "\<exists>c rs'. new_food 2 1 [(0, 0)] (sconst 1) = Some (Inr (c, rs'))"
    using t1 pos d1 by blast
  have c: "new_food 2 1 [(0, 0)] (sconst 0) = None"
    using t0 pos d0 by blast
  have d: "new_food 2 1 [(0, 0), (1, 0)] (sconst 1) = None"
    using tf pos full by blast
  from a b c d show ?thesis by blast
qed

end
